theory Spec2Isabelle
  imports Main "HOL-Library.AList"
begin

section \<open>JavaScript values and strings\<close>

text \<open>
  The library is JavaScript. A query argument is a string or absent; the model keeps the
  three shapes the guards of the source distinguish.

  Strings are modelled as ASCII text. On an ASCII string the definitions below are
  JavaScript's own: \<open>trim\<close> strips the six ASCII white-space characters and the case
  mappings exchange the 26 letters. JavaScript strings are UTF-16, its \<open>trim\<close> also
  strips Unicode white space and its case mappings are Unicode aware (they map
  \<open>U+00DF\<close> to \<open>SS\<close>, for one); a character outside ASCII is not modelled. The laws of
  these operations that the proofs use are laws of JavaScript's operations as well:
  upper-casing twice is upper-casing once, upper-casing keeps white space white space
  and every other character not white space, and trimming twice is trimming once. No
  proof uses a law that holds for ASCII letters only, such as lower-casing an
  upper-cased string being lower-casing the string.
\<close>

datatype jsval = Undefined | Null | Str string

datatype js_error = TypeError

text \<open>\<open>!v\<close> of the source.\<close>

fun falsy :: "jsval \<Rightarrow> bool" where
  "falsy Undefined = True"
| "falsy Null = True"
| "falsy (Str s) = (s = [])"

text \<open>\<open>String(v)\<close> of the source.\<close>

fun toString :: "jsval \<Rightarrow> string" where
  "toString Undefined = ''undefined''"
| "toString Null = ''null''"
| "toString (Str s) = s"

definition isWhiteSpace :: "char \<Rightarrow> bool" where
  "isWhiteSpace c =
     (c = CHR '' '' \<or> c = CHR 0x09 \<or> c = CHR 0x0A \<or> c = CHR 0x0B \<or> c = CHR 0x0C \<or> c = CHR 0x0D)"

definition trim :: "string \<Rightarrow> string" where
  "trim s = rev (dropWhile isWhiteSpace (rev (dropWhile isWhiteSpace s)))"

definition lowerLetters :: string where
  "lowerLetters = ''abcdefghijklmnopqrstuvwxyz''"

definition upperLetters :: string where
  "upperLetters = ''ABCDEFGHIJKLMNOPQRSTUVWXYZ''"

definition isLower :: "char \<Rightarrow> bool" where
  "isLower c = (c \<in> set lowerLetters)"

definition isUpper :: "char \<Rightarrow> bool" where
  "isUpper c = (c \<in> set upperLetters)"

definition toUpperChar :: "char \<Rightarrow> char" where
  "toUpperChar c = (case map_of (zip lowerLetters upperLetters) c of Some u \<Rightarrow> u | None \<Rightarrow> c)"

definition toLowerChar :: "char \<Rightarrow> char" where
  "toLowerChar c = (case map_of (zip upperLetters lowerLetters) c of Some l \<Rightarrow> l | None \<Rightarrow> c)"

definition toUpperCase :: "string \<Rightarrow> string" where
  "toUpperCase s = map toUpperChar s"

definition toLowerCase :: "string \<Rightarrow> string" where
  "toLowerCase s = map toLowerChar s"

text \<open>\<open>Array.prototype.join\<close> on an array of strings.\<close>

fun join :: "string \<Rightarrow> string list \<Rightarrow> string" where
  "join sep [] = []"
| "join sep [x] = x"
| "join sep (x # y # ys) = x @ sep @ join sep (y # ys)"

text \<open>\<open>String.prototype.includes\<close>: the second string occurs as a contiguous piece.\<close>

fun startsWith :: "string \<Rightarrow> string \<Rightarrow> bool" where
  "startsWith s [] = True"
| "startsWith [] (p # ps) = False"
| "startsWith (c # cs) (p # ps) = (c = p \<and> startsWith cs ps)"

fun includesStr :: "string \<Rightarrow> string \<Rightarrow> bool" where
  "includesStr [] q = (q = [])"
| "includesStr (c # cs) q = (startsWith (c # cs) q \<or> includesStr cs q)"

text \<open>
  A JavaScript \<open>Set\<close> keeps its members in insertion order and ignores a second
  \<open>add\<close> of the same member: a list without duplicates, extended at the end.
\<close>

definition setAdd :: "'a \<Rightarrow> 'a list \<Rightarrow> 'a list" where
  "setAdd x s = (if x \<in> set s then s else s @ [x])"

section \<open>utils.js\<close>

definition normalizeCurrencyCode :: "jsval \<Rightarrow> string" where
  "normalizeCurrencyCode code = (if falsy code then [] else toUpperCase (trim (toString code)))"

definition normalizeCountryCode :: "jsval \<Rightarrow> string" where
  "normalizeCountryCode code = (if falsy code then [] else toUpperCase (trim (toString code)))"

text \<open>\<open>Array.from(new Set(values))\<close>: the first occurrence of every value, in order.\<close>

definition uniqueArray :: "'a list \<Rightarrow> 'a list" where
  "uniqueArray values = fold setAdd values []"

definition toFlagFilename :: "jsval \<Rightarrow> string" where
  "toFlagFilename countryCode = toLowerCase (normalizeCountryCode countryCode) @ ''.svg''"

text \<open>
  \<open>new URL(rel, import.meta.url).toString()\<close> is the platform's URL constructor applied
  to the module's own location; it throws a \<open>TypeError\<close> when it cannot build a URL. It is
  the parameter \<open>mkUrl\<close>: the relative reference goes in, the locator or the error comes
  out.
\<close>

definition flagUrlFromCountryCode :: "(string \<Rightarrow> js_error + string) \<Rightarrow> jsval \<Rightarrow> js_error + string" where
  "flagUrlFromCountryCode mkUrl countryCode =
     (let filename = toFlagFilename countryCode in mkUrl (''../flags/'' @ filename))"

section \<open>index.js: the indices\<close>

record currencyRecord =
  currencyCode :: string
  currencyName :: string
  primaryCountryCode :: string
  otherCountryCodes :: "string list"

text \<open>
  A JavaScript \<open>Map\<close> is an association list with distinct keys in insertion order:
  \<open>set\<close> on a present key replaces the value in place, on a new key appends
  (\<open>AList.update\<close>); \<open>get\<close> is \<open>map_of\<close>. The alias table
  \<open>currencyNameAliases\<close> of data.js is a plain object, read as a partial map.
\<close>

record indices =
  codeToCurrency :: "(string \<times> currencyRecord) list"
  countryToCurrencyCodes :: "(string \<times> string list) list"
  nameHaystackByCode :: "(string \<times> string) list"

definition emptyIndices :: indices where
  "emptyIndices = \<lparr>codeToCurrency = [], countryToCurrencyCodes = [], nameHaystackByCode = []\<rparr>"

text \<open>\<open>currencyNameAliases[ccy] || []\<close>\<close>

definition aliasesOf :: "(string \<rightharpoonup> string list) \<Rightarrow> string \<Rightarrow> string list" where
  "aliasesOf currencyNameAliases ccy = (case currencyNameAliases ccy of None \<Rightarrow> [] | Some al \<Rightarrow> al)"

text \<open>The closure \<open>push\<close> of the loop body, for the currency code \<open>ccy\<close> of the iteration.\<close>

definition push :: "string \<Rightarrow> string \<Rightarrow> (string \<times> string list) list \<Rightarrow> (string \<times> string list) list" where
  "push ccy countryCode m =
     (let key = normalizeCountryCode (Str countryCode);
          m1 = (if map_of m key = None then AList.update key [] m else m)
      in AList.map_entry key (setAdd ccy) m1)"

text \<open>The record stored for a dataset entry.\<close>

definition normalized :: "currencyRecord \<Rightarrow> currencyRecord" where
  "normalized entry =
     \<lparr>currencyCode = normalizeCurrencyCode (Str (currencyCode entry)),
      currencyName = currencyName entry,
      primaryCountryCode = normalizeCountryCode (Str (primaryCountryCode entry)),
      otherCountryCodes = map (\<lambda>c. normalizeCountryCode (Str c)) (otherCountryCodes entry)\<rparr>"

text \<open>One iteration of the loop over \<open>currencyCountryData\<close>.\<close>

definition indexEntry :: "(string \<rightharpoonup> string list) \<Rightarrow> currencyRecord \<Rightarrow> indices \<Rightarrow> indices" where
  "indexEntry currencyNameAliases entry ix =
     (let ccy = normalizeCurrencyCode (Str (currencyCode entry));
          primary = normalizeCountryCode (Str (primaryCountryCode entry));
          others = map (\<lambda>c. normalizeCountryCode (Str c)) (otherCountryCodes entry);
          aliases = join ''|'' (aliasesOf currencyNameAliases ccy)
      in \<lparr>codeToCurrency = AList.update ccy (normalized entry) (codeToCurrency ix),
          countryToCurrencyCodes = fold (push ccy) others (push ccy primary (countryToCurrencyCodes ix)),
          nameHaystackByCode =
            AList.update ccy (toLowerCase (currencyName entry @ ''|'' @ aliases)) (nameHaystackByCode ix)\<rparr>)"

definition buildIndices :: "(string \<rightharpoonup> string list) \<Rightarrow> currencyRecord list \<Rightarrow> indices" where
  "buildIndices currencyNameAliases currencyCountryData =
     fold (indexEntry currencyNameAliases) currencyCountryData emptyIndices"

section \<open>index.js: the queries\<close>

text \<open>
  A record that a query hands out is \<open>Some r\<close>; \<open>None\<close> is JavaScript's \<open>null\<close> as a
  result and \<open>undefined\<close> as the element that \<open>codeToCurrency.get\<close> yields for a missing
  key.
\<close>

definition getAllCurrencyEntries :: "indices \<Rightarrow> currencyRecord list" where
  "getAllCurrencyEntries ix = map snd (codeToCurrency ix)"

definition getCurrencyByCode :: "indices \<Rightarrow> jsval \<Rightarrow> currencyRecord option" where
  "getCurrencyByCode ix code = (let key = normalizeCurrencyCode code in map_of (codeToCurrency ix) key)"

definition getCurrenciesByCountryCode :: "indices \<Rightarrow> jsval \<Rightarrow> currencyRecord option list" where
  "getCurrenciesByCountryCode ix countryCode =
     (let key = normalizeCountryCode countryCode
      in case map_of (countryToCurrencyCodes ix) key of
           None \<Rightarrow> []
         | Some s \<Rightarrow> map (\<lambda>ccy. map_of (codeToCurrency ix) ccy) s)"

definition getPrimaryCountryForCurrency :: "indices \<Rightarrow> jsval \<Rightarrow> string option" where
  "getPrimaryCountryForCurrency ix code =
     (case getCurrencyByCode ix code of None \<Rightarrow> None | Some d \<Rightarrow> Some (primaryCountryCode d))"

text \<open>The loop of \<open>findCurrenciesByName\<close> over the entries of \<open>nameHaystackByCode\<close>.\<close>

fun findLoop :: "indices \<Rightarrow> string \<Rightarrow> (string \<times> string) list \<Rightarrow> currencyRecord option list
    \<Rightarrow> currencyRecord option list" where
  "findLoop ix q [] results = results"
| "findLoop ix q ((code, haystack) # rest) results =
     findLoop ix q rest
       (if includesStr haystack q then results @ [map_of (codeToCurrency ix) code] else results)"

definition findCurrenciesByName :: "indices \<Rightarrow> jsval \<Rightarrow> currencyRecord option list" where
  "findCurrenciesByName ix query =
     (if falsy query then []
      else let q = toLowerCase (trim (toString query))
           in findLoop ix q (nameHaystackByCode ix) [])"

text \<open>
  \<open>getFlagUrlByCountryCode\<close>: the \<open>try\<close>/\<open>catch\<close> turns a throwing URL constructor into
  \<open>null\<close>. The result type keeps a place for an exception that would leave the function.
\<close>

definition getFlagUrlByCountryCode :: "(string \<Rightarrow> js_error + string) \<Rightarrow> jsval \<Rightarrow> js_error + string option" where
  "getFlagUrlByCountryCode mkUrl countryCode =
     (if falsy countryCode then Inr None
      else case flagUrlFromCountryCode mkUrl countryCode of
             Inr url \<Rightarrow> Inr (Some url)
           | Inl e \<Rightarrow> Inr None)"

text \<open>\<open>getFlagUrlByCurrencyCode\<close> has no handler: what the constructor throws leaves it.\<close>

definition getFlagUrlByCurrencyCode :: "(string \<Rightarrow> js_error + string) \<Rightarrow> indices \<Rightarrow> jsval \<Rightarrow> js_error + string option" where
  "getFlagUrlByCurrencyCode mkUrl ix code =
     (case getCurrencyByCode ix code of
        None \<Rightarrow> Inr None
      | Some d \<Rightarrow>
          (case flagUrlFromCountryCode mkUrl (Str (primaryCountryCode d)) of
             Inr url \<Rightarrow> Inr (Some url)
           | Inl e \<Rightarrow> Inl e))"

definition getAllCountriesUsingCurrency :: "indices \<Rightarrow> jsval \<Rightarrow> string list" where
  "getAllCountriesUsingCurrency ix code =
     (case getCurrencyByCode ix code of
        None \<Rightarrow> []
      | Some d \<Rightarrow> uniqueArray (primaryCountryCode d # otherCountryCodes d))"

text \<open>
  The loop of \<open>getCurrenciesByExactName\<close>. Reading \<open>entry.currencyName\<close> of a missing
  entry throws.
\<close>

fun exactLoop :: "(string \<rightharpoonup> string list) \<Rightarrow> indices \<Rightarrow> string \<Rightarrow> (string \<times> string) list
    \<Rightarrow> currencyRecord list \<Rightarrow> js_error + currencyRecord list" where
  "exactLoop currencyNameAliases ix q [] results = Inr results"
| "exactLoop currencyNameAliases ix q ((code, haystack) # rest) results =
     (case map_of (codeToCurrency ix) code of
        None \<Rightarrow> Inl TypeError
      | Some entry \<Rightarrow>
          (let aliases = aliasesOf currencyNameAliases code;
               exacts = map toLowerCase (currencyName entry # aliases)
           in exactLoop currencyNameAliases ix q rest
                (if q \<in> set exacts then results @ [entry] else results)))"

definition getCurrenciesByExactName :: "(string \<rightharpoonup> string list) \<Rightarrow> indices \<Rightarrow> jsval
    \<Rightarrow> js_error + currencyRecord list" where
  "getCurrenciesByExactName currencyNameAliases ix name =
     (if falsy name then Inr []
      else let q = toLowerCase (trim (toString name))
           in exactLoop currencyNameAliases ix q (nameHaystackByCode ix) [])"

text \<open>
  The regular expression \<open>/^[a-zA-Z-]{2,5}$/\<close> of \<open>search\<close>, and the test \<open>isCountry\<close>
  that the function makes of it together with the length of the trimmed query.
\<close>

definition isCountryChar :: "char \<Rightarrow> bool" where
  "isCountryChar c = (isLower c \<or> isUpper c \<or> c = CHR ''-'')"

definition countryPattern :: "string \<Rightarrow> bool" where
  "countryPattern q = (2 \<le> length q \<and> length q \<le> 5 \<and> list_all isCountryChar q)"

definition isCountry :: "string \<Rightarrow> bool" where
  "isCountry q = (length q \<le> 3 \<and> countryPattern q)"

definition search :: "indices \<Rightarrow> jsval \<Rightarrow> currencyRecord option list" where
  "search ix query =
     (if falsy query then []
      else let q = trim (toString query)
           in if isCountry q then getCurrenciesByCountryCode ix (Str q)
              else case getCurrencyByCode ix (Str q) of
                     Some byCode \<Rightarrow> [Some byCode]
                   | None \<Rightarrow> findCurrenciesByName ix (Str q))"

section \<open>scripts/generate-data.mjs\<close>

text \<open>
  The generation script assembles the dataset from two downloaded JSON documents. The
  model takes the two parsed documents as arguments: the countries, each with its
  \<open>cca2\<close> and the entries of its \<open>currencies\<close> object (the currency code and the \<open>name\<close>
  of its definition, \<open>Undefined\<close> when there is none), and the entries of the code-to-name
  object. \<open>buildRecords\<close> is \<open>build\<close> up to its list \<open>records\<close>; \<open>build\<close> itself
  is modelled by the text that it writes to src/data.js, the dataset that index.js
  imports. Fetching the documents and writing the file are left out.
\<close>

record country =
  cca2 :: jsval
  currencies :: "(string \<times> jsval) list"

record codeData =
  nameCandidates :: "string list"
  countryCodes :: "string list"

definition normalizeCode :: "jsval \<Rightarrow> string" where
  "normalizeCode s = toUpperCase (trim (toString (if falsy s then Str [] else s)))"

definition PRIMARY_OVERRIDES :: "string \<rightharpoonup> string" where
  "PRIMARY_OVERRIDES = map_of
     [(''EUR'', ''EU''), (''USD'', ''US''), (''GBP'', ''GB''), (''AUD'', ''AU''), (''CAD'', ''CA''),
      (''CHF'', ''CH''), (''JPY'', ''JP''), (''CNY'', ''CN''), (''HKD'', ''HK''), (''SGD'', ''SG''),
      (''XAF'', ''CM''), (''XOF'', ''SN''), (''XCD'', ''AG'')]"

definition EXTRA_CODES :: "(string \<times> string) list" where
  "EXTRA_CODES =
     [(''XXX'', ''No currency''),
      (''XTS'', ''Codes specifically reserved for testing purposes''),
      (''XPT'', ''Platinum (one troy ounce)''),
      (''XPD'', ''Palladium (one troy ounce)''),
      (''XAU'', ''Gold (one troy ounce)''),
      (''XAG'', ''Silver (one troy ounce)''),
      (''XDR'', ''Special Drawing Rights''),
      (''XBA'', ''Bond Markets Unit European Composite Unit (EURCO)''),
      (''XBB'', ''Bond Markets Unit European Monetary Unit (E.M.U.-6)''),
      (''XBC'', ''Bond Markets Unit European Unit of Account 9 (E.U.A.-9)''),
      (''XBD'', ''Bond Markets Unit European Unit of Account 17 (E.U.A.-17)''),
      (''XSU'', ''Sucre''),
      (''XUA'', ''ADB Unit of Account'')]"

text \<open>\<open>if (!map.has(code)) map.set(code, {nameCandidates: new Set(), countryCodes: new Set()})\<close>\<close>

definition ensure :: "string \<Rightarrow> (string \<times> codeData) list \<Rightarrow> (string \<times> codeData) list" where
  "ensure code m =
     (if map_of m code = None then AList.update code \<lparr>nameCandidates = [], countryCodes = []\<rparr> m else m)"

definition addName :: "string \<Rightarrow> codeData \<Rightarrow> codeData" where
  "addName name entry = entry\<lparr>nameCandidates := setAdd name (nameCandidates entry)\<rparr>"

definition addCountryCode :: "string \<Rightarrow> codeData \<Rightarrow> codeData" where
  "addCountryCode cc entry = entry\<lparr>countryCodes := setAdd cc (countryCodes entry)\<rparr>"

text \<open>The body of the inner loop over the currencies of one country.\<close>

definition countryCurrencyStep :: "string \<Rightarrow> string \<times> jsval \<Rightarrow> (string \<times> codeData) list
    \<Rightarrow> (string \<times> codeData) list" where
  "countryCurrencyStep cca2n cd m =
     (let code = normalizeCode (Str (fst cd));
          m1 = ensure code m;
          m2 = (if \<not> falsy (snd cd) then AList.map_entry code (addName (toString (snd cd))) m1 else m1)
      in if cca2n \<noteq> [] then AList.map_entry code (addCountryCode cca2n) m2 else m2)"

definition countryStep :: "country \<Rightarrow> (string \<times> codeData) list \<Rightarrow> (string \<times> codeData) list" where
  "countryStep c m = (let cca2n = normalizeCode (cca2 c) in fold (countryCurrencyStep cca2n) (currencies c) m)"

text \<open>The bodies of the loops over the code-to-name entries and over \<open>EXTRA_CODES\<close>.\<close>

definition nameStep :: "string \<times> string \<Rightarrow> (string \<times> codeData) list \<Rightarrow> (string \<times> codeData) list" where
  "nameStep cn m =
     (let code = normalizeCode (Str (fst cn)); name = snd cn
      in AList.map_entry code (addName name) (ensure code m))"

definition extraStep :: "string \<times> string \<Rightarrow> (string \<times> codeData) list \<Rightarrow> (string \<times> codeData) list" where
  "extraStep cn m =
     (let cc = normalizeCode (Str (fst cn))
      in AList.map_entry cc (addName (snd cn)) (ensure cc m))"

text \<open>
  \<open>Array.prototype.sort()\<close> without a comparator orders strings by their code units, a
  proper prefix first. On a total order whose ties are equal strings every sorting
  algorithm returns the same array; the model sorts by insertion.
\<close>

fun strLe :: "string \<Rightarrow> string \<Rightarrow> bool" where
  "strLe [] ys = True"
| "strLe (x # xs) [] = False"
| "strLe (x # xs) (y # ys) = ((of_char x :: nat) < of_char y \<or> (x = y \<and> strLe xs ys))"

fun insertSorted :: "string \<Rightarrow> string list \<Rightarrow> string list" where
  "insertSorted x [] = [x]"
| "insertSorted x (y # ys) = (if strLe x y then x # y # ys else y # insertSorted x ys)"

definition sortStrings :: "string list \<Rightarrow> string list" where
  "sortStrings xs = foldr insertSorted xs []"

text \<open>The body of the loop over \<open>allCodes\<close>: the record of one currency code.\<close>

definition mkRecord :: "string \<Rightarrow> codeData \<Rightarrow> currencyRecord" where
  "mkRecord code data =
     (let countriesArr = sortStrings (countryCodes data);
          primary = (case PRIMARY_OVERRIDES code of
                       Some p \<Rightarrow> p
                     | None \<Rightarrow> (case countriesArr of
                                  c # cs \<Rightarrow> if c \<noteq> [] then c else ''XX''
                                | [] \<Rightarrow> ''XX''));
          others = filter (\<lambda>cc. cc \<noteq> primary) countriesArr;
          name = (case nameCandidates data of
                    n # ns \<Rightarrow> if n \<noteq> [] then n else code
                  | [] \<Rightarrow> code)
      in \<lparr>currencyCode = code, currencyName = name,
          primaryCountryCode = primary, otherCountryCodes = others\<rparr>)"

text \<open>Reading \<open>data.countryCodes\<close> of a code that the map does not hold throws.\<close>

fun mkRecords :: "(string \<times> codeData) list \<Rightarrow> string list \<Rightarrow> currencyRecord list
    \<Rightarrow> js_error + currencyRecord list" where
  "mkRecords m [] records = Inr records"
| "mkRecords m (code # codes) records =
     (case map_of m code of
        None \<Rightarrow> Inl TypeError
      | Some data \<Rightarrow> mkRecords m codes (records @ [mkRecord code data]))"

definition buildRecords :: "country list \<Rightarrow> (string \<times> string) list \<Rightarrow> js_error + currencyRecord list" where
  "buildRecords countries codeToName =
     (let m1 = fold countryStep countries [];
          m2 = fold nameStep codeToName m1;
          m3 = fold extraStep EXTRA_CODES m2;
          allCodes = sortStrings (map fst m3)
      in mkRecords m3 allCodes [])"







section \<open>Notions used to state the properties\<close>

text \<open>The normalized currency code under which a dataset entry is indexed.\<close>

definition codeOf :: "currencyRecord \<Rightarrow> string" where
  "codeOf entry = normalizeCurrencyCode (Str (currencyCode entry))"

text \<open>The normalized country codes under which a dataset entry is indexed.\<close>

definition countriesOf :: "currencyRecord \<Rightarrow> string list" where
  "countriesOf entry =
     map (\<lambda>c. normalizeCountryCode (Str c)) (primaryCountryCode entry # otherCountryCodes entry)"

text \<open>The members of the set that a country-to-codes map holds for a key; none for a
  key it does not have.\<close>

definition codesAt :: "(string \<times> string list) list \<Rightarrow> string \<Rightarrow> string set" where
  "codesAt m k = (case map_of m k of None \<Rightarrow> {} | Some s \<Rightarrow> set s)"

text \<open>
  Exact name match as the specification words it: the canonical name or one of the
  aliases of the record equals the query, compared without regard to case.
\<close>

definition equalsIgnoreCase :: "string \<Rightarrow> string \<Rightarrow> bool" where
  "equalsIgnoreCase a b = (toLowerCase a = toLowerCase b)"

definition exactNameMatch :: "(string \<rightharpoonup> string list) \<Rightarrow> string \<Rightarrow> currencyRecord \<Rightarrow> bool" where
  "exactNameMatch currencyNameAliases q r =
     list_ex (\<lambda>n. equalsIgnoreCase n q) (currencyName r # aliasesOf currencyNameAliases (currencyCode r))"


text \<open>Every country code that the generator's code map holds is a fixed point of
  normalization.\<close>

definition codesNormalized :: "(string \<times> codeData) list \<Rightarrow> bool" where
  "codesNormalized m \<longleftrightarrow>
     (\<forall>k d. map_of m k = Some d \<longrightarrow> (\<forall>c\<in>set (countryCodes d). normalizeCountryCode (Str c) = c))"

section \<open>Sample data\<close>

text \<open>A small dataset, alias table, URL constructor and generator input, used to run the
  definitions on concrete arguments.\<close>

definition sampleData :: "currencyRecord list" where
  "sampleData =
     [\<lparr>currencyCode = ''USD'', currencyName = ''United States Dollar'',
       primaryCountryCode = ''US'', otherCountryCodes = [''EC'', ''PR'']\<rparr>,
      \<lparr>currencyCode = ''GBP'', currencyName = ''British Pound Sterling'',
       primaryCountryCode = ''GB'', otherCountryCodes = [''IM'']\<rparr>,
      \<lparr>currencyCode = ''AUD'', currencyName = ''Australian Dollar'',
       primaryCountryCode = ''AU'', otherCountryCodes = [''KI'', ''NR'']\<rparr>]"

definition sampleAliases :: "string \<rightharpoonup> string list" where
  "sampleAliases = map_of [(''USD'', [''US Dollar'', ''Dollar'']), (''GBP'', [''British Pound'', ''Sterling''])]"

definition sampleIndices :: indices where
  "sampleIndices = buildIndices sampleAliases sampleData"

text \<open>A dataset that breaks the data model: the same currency code twice.\<close>

definition duplicateData :: "currencyRecord list" where
  "duplicateData =
     [\<lparr>currencyCode = ''USD'', currencyName = ''United States Dollar'',
       primaryCountryCode = ''US'', otherCountryCodes = []\<rparr>,
      \<lparr>currencyCode = ''USD'', currencyName = ''Dollar'',
       primaryCountryCode = ''CA'', otherCountryCodes = []\<rparr>]"

text \<open>
  A URL constructor for a module at \<open>file:///pkg/src/utils.js\<close>: it resolves a reference
  that starts with \<open>../\<close> against the directory above and, as the platform's
  constructor does with a path, writes a space as \<open>%20\<close>.
\<close>

definition encodePathChar :: "char \<Rightarrow> string" where
  "encodePathChar c = (if c = CHR '' '' then ''%20'' else [c])"

definition sampleMkUrl :: "string \<Rightarrow> js_error + string" where
  "sampleMkUrl rel =
     (if startsWith rel ''../''
      then Inr (''file:///pkg/'' @ concat (map encodePathChar (drop 3 rel)))
      else Inl TypeError)"

definition failingMkUrl :: "string \<Rightarrow> js_error + string" where
  "failingMkUrl rel = Inl TypeError"

definition sampleCountries :: "country list" where
  "sampleCountries =
     [\<lparr>cca2 = Str ''us'', currencies = [(''USD'', Str ''United States dollar'')]\<rparr>,
      \<lparr>cca2 = Str ''EC'', currencies = [(''USD'', Str ''United States dollar'')]\<rparr>]"

definition sampleNames :: "(string \<times> string) list" where
  "sampleNames = [(''USD'', ''United States Dollar'')]"




section \<open>Properties of the string operations\<close>

lemmas chr_defs = isWhiteSpace_def toUpperChar_def toLowerChar_def isLower_def isUpper_def lowerLetters_def upperLetters_def

lemma toUpperChar_idem: "toUpperChar (toUpperChar c) = toUpperChar c"
  by (simp add: chr_defs)

lemma isWhiteSpace_toUpperChar: "isWhiteSpace (toUpperChar c) = isWhiteSpace c"
  by (simp add: chr_defs)

lemma toUpperCase_idem: "toUpperCase (toUpperCase s) = toUpperCase s"
  by (simp add: toUpperCase_def toUpperChar_idem)

lemma dropWhile_ws_upper:
  "dropWhile isWhiteSpace (map toUpperChar s) = map toUpperChar (dropWhile isWhiteSpace s)"
  by (induction s) (simp_all add: isWhiteSpace_toUpperChar)

lemma trim_toUpperCase: "trim (toUpperCase s) = toUpperCase (trim s)"
  by (simp add: trim_def toUpperCase_def dropWhile_ws_upper rev_map)

lemma dropWhile_rev_dropWhile:
  "dropWhile P (rev (dropWhile P (rev (dropWhile P s)))) = rev (dropWhile P (rev (dropWhile P s)))"
proof (cases "dropWhile P (rev (dropWhile P s))")
  case Nil
  show ?thesis unfolding Nil by simp
next
  case (Cons b bs)
  define a where "a = dropWhile P s"
  have b: "dropWhile P (rev a) = b # bs" using Cons a_def by simp
  have "rev a = takeWhile P (rev a) @ b # bs"
    using b takeWhile_dropWhile_id [of P "rev a"] by simp
  then have "a = rev bs @ b # rev (takeWhile P (rev a))"
    by (metis rev_append rev.simps(2) rev_rev_ident append_assoc append_Cons append_Nil)
  then obtain t where a: "a = (rev bs @ [b]) @ t" by simp
  have "a \<noteq> []" using a by auto
  then have "\<not> P (hd a)" unfolding a_def by (metis hd_dropWhile)
  moreover have "hd a = hd (rev bs @ [b])" unfolding a by (simp add: hd_append)
  ultimately have "\<not> P (hd (rev (b # bs)))" by simp
  then have "dropWhile P (rev (b # bs)) = rev (b # bs)"
    by (cases "rev (b # bs)") simp_all
  then show ?thesis using b a_def by simp
qed

lemma trim_idem: "trim (trim s) = trim s"
proof -
  have "dropWhile isWhiteSpace (rev (dropWhile isWhiteSpace s)) = [] \<or>
        \<not> isWhiteSpace (hd (dropWhile isWhiteSpace (rev (dropWhile isWhiteSpace s))))"
    by (metis hd_dropWhile)
  then have "dropWhile isWhiteSpace (rev (trim s)) = rev (trim s)"
    unfolding trim_def by (cases "dropWhile isWhiteSpace (rev (dropWhile isWhiteSpace s))") auto
  then show ?thesis
    unfolding trim_def [of "trim s"] dropWhile_rev_dropWhile [of isWhiteSpace s, folded trim_def]
    by (simp add: dropWhile_rev_dropWhile [of isWhiteSpace s, folded trim_def])
qed

lemma normalizeCountryCode_Str: "normalizeCountryCode (Str s) = toUpperCase (trim s)"
  by (simp add: normalizeCountryCode_def toUpperCase_def trim_def)

lemma normalizeCurrencyCode_Str: "normalizeCurrencyCode (Str s) = toUpperCase (trim s)"
  by (simp add: normalizeCurrencyCode_def toUpperCase_def trim_def)

lemma normalizeCountryCode_idem:
  "normalizeCountryCode (Str (normalizeCountryCode v)) = normalizeCountryCode v"
proof (cases "falsy v")
  case True
  then show ?thesis by (simp add: normalizeCountryCode_def)
next
  case False
  then show ?thesis
    by (simp add: normalizeCountryCode_Str normalizeCountryCode_def trim_toUpperCase trim_idem toUpperCase_idem)
qed

lemma normalizeCode_eq: "normalizeCode v = normalizeCountryCode v"
  by (cases v) (simp_all add: normalizeCode_def normalizeCountryCode_def toUpperCase_def trim_def)

lemma normalizeCurrencyCode_eq: "normalizeCurrencyCode v = normalizeCountryCode v"
  by (simp add: normalizeCurrencyCode_def normalizeCountryCode_def)

text \<open>\<open>includesStr\<close> is the substring test.\<close>

lemma startsWith_iff: "startsWith s p \<longleftrightarrow> (\<exists>ss. s = p @ ss)"
  by (induction s p rule: startsWith.induct) auto

lemma includesStr_iff: "includesStr h q \<longleftrightarrow> (\<exists>ps ss. h = ps @ q @ ss)"
proof (induction h)
  case Nil
  then show ?case by simp
next
  case (Cons c cs)
  have "(\<exists>ps ss. c # cs = ps @ q @ ss) \<longleftrightarrow> (\<exists>ss. c # cs = q @ ss) \<or> (\<exists>ps ss. cs = ps @ q @ ss)"
  proof
    assume "\<exists>ps ss. c # cs = ps @ q @ ss"
    then obtain ps ss where e: "c # cs = ps @ q @ ss" by blast
    show "(\<exists>ss. c # cs = q @ ss) \<or> (\<exists>ps ss. cs = ps @ q @ ss)"
    proof (cases ps)
      case Nil
      then show ?thesis using e by auto
    next
      case (Cons p ps')
      then have "cs = ps' @ q @ ss" using e by simp
      then show ?thesis by blast
    qed
  next
    assume "(\<exists>ss. c # cs = q @ ss) \<or> (\<exists>ps ss. cs = ps @ q @ ss)"
    then show "\<exists>ps ss. c # cs = ps @ q @ ss"
    proof
      assume "\<exists>ss. c # cs = q @ ss"
      then obtain ss where "c # cs = [] @ q @ ss" by auto
      then show ?thesis by blast
    next
      assume "\<exists>ps ss. cs = ps @ q @ ss"
      then obtain ps ss where "c # cs = (c # ps) @ q @ ss" by auto
      then show ?thesis by blast
    qed
  qed
  then show ?case using Cons.IH by (simp add: startsWith_iff)
qed

section \<open>The flag resolver\<close>




text \<open>
  Claim C8. \<open>getFlagUrlByCountryCode\<close> never lets an exception out: it returns \<open>null\<close>
  for an empty or absent code and when the URL constructor throws, and the locator that
  \<open>flagUrlFromCountryCode\<close> built in every other case.
\<close>

theorem getFlagUrlByCountryCode_never_throws:
  "getFlagUrlByCountryCode mkUrl countryCode =
     Inr (if falsy countryCode then None
          else case flagUrlFromCountryCode mkUrl countryCode of Inr url \<Rightarrow> Some url | Inl e \<Rightarrow> None)"
  by (simp add: getFlagUrlByCountryCode_def split: sum.splits)

theorem getFlagUrlByCountryCode_never_throws_witness:
  "getFlagUrlByCountryCode sampleMkUrl (Str ''US'') = Inr (Some ''file:///pkg/flags/us.svg'')
   \<and> getFlagUrlByCountryCode sampleMkUrl (Str []) = Inr None
   \<and> getFlagUrlByCountryCode sampleMkUrl Null = Inr None
   \<and> getFlagUrlByCountryCode failingMkUrl (Str ''US'') = Inr None
   \<and> getFlagUrlByCurrencyCode failingMkUrl sampleIndices (Str ''USD'') = Inl TypeError"
proof -
  have u: "flagUrlFromCountryCode sampleMkUrl (Str ''US'') = Inr ''file:///pkg/flags/us.svg''" by code_simp
  have f: "flagUrlFromCountryCode failingMkUrl (Str ''US'') = Inl TypeError" by code_simp
  have c: "getFlagUrlByCurrencyCode failingMkUrl sampleIndices (Str ''USD'') = Inl TypeError" by code_simp
  show ?thesis
    using getFlagUrlByCountryCode_never_throws [of sampleMkUrl "Str ''US''"]
      getFlagUrlByCountryCode_never_throws [of sampleMkUrl "Str []"]
      getFlagUrlByCountryCode_never_throws [of sampleMkUrl Null]
      getFlagUrlByCountryCode_never_throws [of failingMkUrl "Str ''US''"]
    unfolding u f c by simp
qed

section \<open>search\<close>

lemma isCountry_iff: "isCountry q \<longleftrightarrow> 2 \<le> length q \<and> length q \<le> 3 \<and> list_all isCountryChar q"
  by (auto simp: isCountry_def countryPattern_def)

text \<open>
  Claim C1, as amended. The regular expression admits 2 to 5 letters or hyphens, but
  \<open>search\<close> also asks for a length of at most 3. A trimmed query of that shape goes to
  the country lookup when it has 2 or 3 characters; with 4 or 5 characters it goes to the
  exact currency-code lookup and then to the name search.
\<close>

theorem search_country_shaped:
  assumes "countryPattern (trim s)"
  shows "search ix (Str s) =
           (if length (trim s) \<le> 3 then getCurrenciesByCountryCode ix (Str (trim s))
            else case getCurrencyByCode ix (Str (trim s)) of
                   Some byCode \<Rightarrow> [Some byCode]
                 | None \<Rightarrow> findCurrenciesByName ix (Str (trim s)))"
proof -
  have "trim s \<noteq> []" using assms by (auto simp: countryPattern_def)
  then have "s \<noteq> []" by (auto simp: trim_def)
  then show ?thesis using assms by (simp add: search_def isCountry_def Let_def)
qed

theorem search_country_shaped_witness:
  "countryPattern (trim '' gb '') \<and> countryPattern (trim ''doll'')
   \<and> search sampleIndices (Str '' gb '') = getCurrenciesByCountryCode sampleIndices (Str ''gb'')
   \<and> search sampleIndices (Str ''doll'') = findCurrenciesByName sampleIndices (Str ''doll'')"
proof -
  have h1: "countryPattern (trim '' gb '')" by code_simp
  have h2: "countryPattern (trim ''doll'')" by code_simp
  have t1: "trim '' gb '' = ''gb''" by code_simp
  have t2: "trim ''doll'' = ''doll''" by code_simp
  have n: "getCurrencyByCode sampleIndices (Str ''doll'') = None" by code_simp
  show ?thesis
    using h1 h2 search_country_shaped [OF h1, of sampleIndices] search_country_shaped [OF h2, of sampleIndices]
    unfolding t1 t2 n by simp
qed

text \<open>
  The claim as the specification words it (every trimmed query of 2 to 5 letters goes to
  the country lookup) fails for the four letters \<open>doll\<close>: the name search answers.
\<close>

theorem search_five_letters_counterexample:
  "countryPattern (trim ''doll'')
   \<and> search sampleIndices (Str ''doll'') \<noteq> getCurrenciesByCountryCode sampleIndices (Str (trim ''doll''))"
  by code_simp

text \<open>
  Claim C2. The country test comes first in \<open>search\<close>: a trimmed query of 2 or 3
  letters or hyphens always gets the result of the country lookup, whether or not it is
  also the code of a currency; the exact-code branch is not reached.
\<close>

theorem search_country_before_code:
  assumes "2 \<le> length (trim s)" and "length (trim s) \<le> 3" and "list_all isCountryChar (trim s)"
  shows "search ix (Str s) = getCurrenciesByCountryCode ix (Str (trim s))"
proof -
  have "trim s \<noteq> []" using assms(1) by auto
  then have "s \<noteq> []" by (auto simp: trim_def)
  then show ?thesis using assms by (simp add: search_def isCountry_iff Let_def)
qed

theorem search_country_before_code_witness:
  "search sampleIndices (Str ''US'') = [getCurrencyByCode sampleIndices (Str ''USD'')]
   \<and> getCurrencyByCode sampleIndices (Str ''US'') = None
   \<and> getCurrencyByCode sampleIndices (Str ''USD'') \<noteq> None
   \<and> search sampleIndices (Str ''USD'') = []"
proof -
  have t1: "trim ''US'' = ''US''" and t2: "trim ''USD'' = ''USD''" by code_simp+
  have a1: "2 \<le> length (trim ''US'')" "length (trim ''US'') \<le> 3" "list_all isCountryChar (trim ''US'')"
    by code_simp+
  have a2: "2 \<le> length (trim ''USD'')" "length (trim ''USD'') \<le> 3" "list_all isCountryChar (trim ''USD'')"
    by code_simp+
  have c1: "getCurrenciesByCountryCode sampleIndices (Str ''US'') = [getCurrencyByCode sampleIndices (Str ''USD'')]"
    by code_simp
  have c2: "getCurrenciesByCountryCode sampleIndices (Str ''USD'') = []" by code_simp
  have c3: "getCurrencyByCode sampleIndices (Str ''US'') = None" by code_simp
  have c4: "getCurrencyByCode sampleIndices (Str ''USD'') \<noteq> None" by code_simp
  show ?thesis
    using search_country_before_code [OF a1, of sampleIndices] search_country_before_code [OF a2, of sampleIndices]
      c3 c4
    unfolding t1 t2 c1 c2 by simp
qed

section \<open>The index builder\<close>

lemma codeToCurrency_indexEntry:
  "codeToCurrency (indexEntry al e ix) = AList.update (codeOf e) (normalized e) (codeToCurrency ix)"
  by (simp add: indexEntry_def codeOf_def Let_def)

lemma nameHaystackByCode_indexEntry:
  "nameHaystackByCode (indexEntry al e ix) =
     AList.update (codeOf e) (toLowerCase (currencyName e @ ''|'' @ join ''|'' (aliasesOf al (codeOf e))))
       (nameHaystackByCode ix)"
  by (simp add: indexEntry_def codeOf_def Let_def)

lemma find_SomeD: "List.find P xs = Some x \<Longrightarrow> x \<in> set xs \<and> P x"
  by (induction xs) (auto split: if_splits)

lemma countryToCurrencyCodes_indexEntry:
  "countryToCurrencyCodes (indexEntry al e ix) =
     fold (push (codeOf e)) (countriesOf e) (countryToCurrencyCodes ix)"
  by (simp add: indexEntry_def codeOf_def countriesOf_def Let_def)

lemma fold_snoc: "fold f (xs @ [x]) s = f x (fold f xs s)"
  by simp

lemma keys_sync_fold:
  assumes "map fst (nameHaystackByCode ix) = map fst (codeToCurrency ix)"
  shows "map fst (nameHaystackByCode (fold (indexEntry al) ds ix)) =
         map fst (codeToCurrency (fold (indexEntry al) ds ix))"
proof (induction ds rule: rev_induct)
  case Nil
  then show ?case using assms by simp
next
  case (snoc e ds)
  show ?case
    using snoc.IH by (simp add: nameHaystackByCode_indexEntry codeToCurrency_indexEntry update_keys)
qed

lemma distinct_keys_fold:
  assumes "distinct (map fst (codeToCurrency ix))"
  shows "distinct (map fst (codeToCurrency (fold (indexEntry al) ds ix)))"
proof (induction ds rule: rev_induct)
  case Nil
  then show ?case using assms by simp
next
  case (snoc e ds)
  then show ?case by (simp add: codeToCurrency_indexEntry distinct_update)
qed

lemma codeToCurrency_fold_lookup:
  "map_of (codeToCurrency (fold (indexEntry al) ds ix)) k =
     (case List.find (\<lambda>e. codeOf e = k) (rev ds) of
        Some e \<Rightarrow> Some (normalized e)
      | None \<Rightarrow> map_of (codeToCurrency ix) k)"
proof (induction ds rule: rev_induct)
  case Nil
  then show ?case by simp
next
  case (snoc e ds)
  then show ?case by (simp add: codeToCurrency_indexEntry update_conv')
qed

lemma currencyCode_normalized: "currencyCode (normalized e) = codeOf e"
  by (simp add: normalized_def codeOf_def)

lemma buildIndices_lookup:
  "map_of (codeToCurrency (buildIndices al ds)) k =
     map_option normalized (List.find (\<lambda>e. codeOf e = k) (rev ds))"
  by (simp add: buildIndices_def codeToCurrency_fold_lookup emptyIndices_def split: option.splits)

lemma buildIndices_lookup_Some:
  assumes "map_of (codeToCurrency (buildIndices al ds)) k = Some r"
  shows "\<exists>e\<in>set ds. r = normalized e \<and> codeOf e = k"
proof -
  from assms obtain e where "List.find (\<lambda>e. codeOf e = k) (rev ds) = Some e" "r = normalized e"
    by (auto simp: buildIndices_lookup)
  then have "e \<in> set ds \<and> codeOf e = k" "r = normalized e"
    using find_SomeD [of "\<lambda>e. codeOf e = k" "rev ds" e] by simp_all
  then show ?thesis by blast
qed

lemma buildIndices_lookup_present:
  assumes "e \<in> set ds"
  shows "\<exists>r. map_of (codeToCurrency (buildIndices al ds)) (codeOf e) = Some r"
proof -
  have "List.find (\<lambda>x. codeOf x = codeOf e) (rev ds) \<noteq> None"
    using assms by (auto simp: find_None_iff)
  then show ?thesis by (auto simp: buildIndices_lookup)
qed

lemma buildIndices_lookup_None:
  "map_of (codeToCurrency (buildIndices al ds)) k = None \<longleftrightarrow> (\<forall>e\<in>set ds. codeOf e \<noteq> k)"
  by (auto simp: buildIndices_lookup find_None_iff)

lemma buildIndices_lookup_distinct:
  assumes "distinct (map codeOf ds)" and "e \<in> set ds"
  shows "map_of (codeToCurrency (buildIndices al ds)) (codeOf e) = Some (normalized e)"
proof -
  obtain r where r: "map_of (codeToCurrency (buildIndices al ds)) (codeOf e) = Some r"
    using buildIndices_lookup_present [OF assms(2)] by blast
  then obtain e' where e': "e' \<in> set ds" "r = normalized e'" "codeOf e' = codeOf e"
    using buildIndices_lookup_Some by blast
  have "inj_on codeOf (set ds)" using assms(1) by (simp add: distinct_map)
  then have "e' = e" using e' assms(2) by (auto dest: inj_onD)
  then show ?thesis using r e' by simp
qed

lemma buildIndices_distinct_keys: "distinct (map fst (codeToCurrency (buildIndices al ds)))"
  by (simp add: buildIndices_def distinct_keys_fold emptyIndices_def)

lemma buildIndices_keys_sync:
  "map fst (nameHaystackByCode (buildIndices al ds)) = map fst (codeToCurrency (buildIndices al ds))"
  by (simp add: buildIndices_def keys_sync_fold emptyIndices_def)

lemma buildIndices_entry:
  assumes "(k, r) \<in> set (codeToCurrency (buildIndices al ds))"
  shows "\<exists>e\<in>set ds. r = normalized e \<and> codeOf e = k"
proof -
  have "map_of (codeToCurrency (buildIndices al ds)) k = Some r"
    using assms buildIndices_distinct_keys by simp
  then show ?thesis by (rule buildIndices_lookup_Some)
qed

lemma buildIndices_entry_code:
  assumes "(k, r) \<in> set (codeToCurrency (buildIndices al ds))"
  shows "currencyCode r = k"
  using buildIndices_entry [OF assms] by (auto simp: currencyCode_normalized)

section \<open>Lookups by currency code\<close>

text \<open>
  Claim C6. A currency code that the dataset holds, written in any case and with white
  space around it, is found by \<open>getCurrencyByCode\<close>, and the record returned carries the
  normalized (trimmed, upper-cased) query as its \<open>currencyCode\<close>.
\<close>

theorem getCurrencyByCode_present:
  assumes "e \<in> set ds" and "normalizeCurrencyCode c = normalizeCurrencyCode (Str (currencyCode e))"
  shows "\<exists>r. getCurrencyByCode (buildIndices al ds) c = Some r \<and> currencyCode r = normalizeCurrencyCode c"
proof -
  have k: "normalizeCurrencyCode c = codeOf e" using assms(2) by (simp add: codeOf_def)
  obtain r where r: "map_of (codeToCurrency (buildIndices al ds)) (codeOf e) = Some r"
    using buildIndices_lookup_present [OF assms(1)] by blast
  then have "currencyCode r = codeOf e"
    using buildIndices_lookup_Some [OF r] by (auto simp: currencyCode_normalized)
  then show ?thesis using r k by (simp add: getCurrencyByCode_def)
qed

theorem getCurrencyByCode_present_witness:
  "\<exists>r. getCurrencyByCode (buildIndices sampleAliases sampleData) (Str '' gbp '') = Some r
       \<and> currencyCode r = ''GBP''"
proof -
  have m: "sampleData ! 1 \<in> set sampleData" by (simp add: sampleData_def)
  have n: "normalizeCurrencyCode (Str '' gbp '') = normalizeCurrencyCode (Str (currencyCode (sampleData ! 1)))"
    by code_simp
  have v: "normalizeCurrencyCode (Str '' gbp '') = ''GBP''" by code_simp
  show ?thesis
    using getCurrencyByCode_present [OF m n, of sampleAliases] unfolding v .
qed

lemma setAdd_member: "x \<in> set s \<Longrightarrow> setAdd x s = s"
  by (simp add: setAdd_def)

lemma setAdd_fresh: "x \<notin> set s \<Longrightarrow> setAdd x s = s @ [x]"
  by (simp add: setAdd_def)

lemma set_setAdd: "set (setAdd x s) = insert x (set s)"
  by (cases "x \<in> set s") (auto simp: setAdd_member setAdd_fresh)

lemma distinct_setAdd: "distinct s \<Longrightarrow> distinct (setAdd x s)"
  by (cases "x \<in> set s") (auto simp: setAdd_member setAdd_fresh)

lemma setAdd_not_Nil: "setAdd x s \<noteq> []"
  by (cases "x \<in> set s") (auto simp: setAdd_member setAdd_fresh)

lemma fold_setAdd_append: "\<exists>ys. fold setAdd xs acc = acc @ ys"
proof (induction xs arbitrary: acc)
  case Nil
  then show ?case by simp
next
  case (Cons x xs)
  obtain ys where ys: "fold setAdd xs (setAdd x acc) = setAdd x acc @ ys" using Cons.IH by blast
  show ?case
  proof (cases "x \<in> set acc")
    case True
    then show ?thesis using ys by (simp add: setAdd_member)
  next
    case False
    then show ?thesis using ys by (simp add: setAdd_fresh)
  qed
qed

lemma distinct_fold_setAdd: "distinct acc \<Longrightarrow> distinct (fold setAdd xs acc)"
  by (induction xs arbitrary: acc) (simp_all add: distinct_setAdd)

lemma set_fold_setAdd: "set (fold setAdd xs acc) = set acc \<union> set xs"
  by (induction xs arbitrary: acc) (auto simp: set_setAdd)

lemma distinct_uniqueArray: "distinct (uniqueArray xs)"
  by (simp add: uniqueArray_def distinct_fold_setAdd)

lemma uniqueArray_Cons: "\<exists>ys. uniqueArray (x # xs) = x # ys"
  using fold_setAdd_append [of xs "[x]"] by (simp add: uniqueArray_def setAdd_fresh)

text \<open>
  Claim C4. The list of \<open>getAllCountriesUsingCurrency\<close> has no duplicates; for a currency
  code of the dataset it starts with the country that \<open>getPrimaryCountryForCurrency\<close>
  returns, and for any other code it is empty.
\<close>

theorem getAllCountriesUsingCurrency_shape:
  "distinct (getAllCountriesUsingCurrency (buildIndices al ds) c)
   \<and> ((\<exists>e\<in>set ds. codeOf e = normalizeCurrencyCode c) \<longrightarrow>
        (\<exists>p rest. getPrimaryCountryForCurrency (buildIndices al ds) c = Some p
                 \<and> getAllCountriesUsingCurrency (buildIndices al ds) c = p # rest))
   \<and> ((\<forall>e\<in>set ds. codeOf e \<noteq> normalizeCurrencyCode c) \<longrightarrow>
        getAllCountriesUsingCurrency (buildIndices al ds) c = [])"
proof (cases "getCurrencyByCode (buildIndices al ds) c")
  case None
  then have "\<forall>e\<in>set ds. codeOf e \<noteq> normalizeCurrencyCode c"
    by (simp add: getCurrencyByCode_def buildIndices_lookup_None)
  then show ?thesis using None by (auto simp: getAllCountriesUsingCurrency_def)
next
  case (Some d)
  then have ex: "\<not> (\<forall>e\<in>set ds. codeOf e \<noteq> normalizeCurrencyCode c)"
    using buildIndices_lookup_None [of al ds "normalizeCurrencyCode c"]
    by (simp add: getCurrencyByCode_def)
  obtain ys where ys: "uniqueArray (primaryCountryCode d # otherCountryCodes d) = primaryCountryCode d # ys"
    using uniqueArray_Cons [of "primaryCountryCode d" "otherCountryCodes d"] by auto
  have "distinct (getAllCountriesUsingCurrency (buildIndices al ds) c)"
    using Some by (simp add: getAllCountriesUsingCurrency_def distinct_uniqueArray)
  moreover have "getPrimaryCountryForCurrency (buildIndices al ds) c = Some (primaryCountryCode d)"
    using Some by (simp add: getPrimaryCountryForCurrency_def)
  moreover have "getAllCountriesUsingCurrency (buildIndices al ds) c = primaryCountryCode d # ys"
    using Some ys by (simp add: getAllCountriesUsingCurrency_def)
  ultimately show ?thesis using ex by blast
qed

theorem getAllCountriesUsingCurrency_shape_witness:
  "getAllCountriesUsingCurrency (buildIndices sampleAliases sampleData) (Str ''usd'') = [''US'', ''EC'', ''PR'']
   \<and> getPrimaryCountryForCurrency (buildIndices sampleAliases sampleData) (Str ''usd'') = Some ''US''
   \<and> distinct (getAllCountriesUsingCurrency (buildIndices sampleAliases sampleData) (Str ''usd''))
   \<and> getAllCountriesUsingCurrency (buildIndices sampleAliases sampleData) (Str ''EUR'') = []"
proof -
  have m: "\<exists>e\<in>set sampleData. codeOf e = normalizeCurrencyCode (Str ''usd'')" by code_simp
  have n: "\<forall>e\<in>set sampleData. codeOf e \<noteq> normalizeCurrencyCode (Str ''EUR'')" by code_simp
  have v: "getAllCountriesUsingCurrency (buildIndices sampleAliases sampleData) (Str ''usd'') = [''US'', ''EC'', ''PR'']"
    by code_simp
  have p: "getPrimaryCountryForCurrency (buildIndices sampleAliases sampleData) (Str ''usd'') = Some ''US''"
    by code_simp
  show ?thesis
    using m n v p getAllCountriesUsingCurrency_shape [of sampleAliases sampleData "Str ''usd''"]
      getAllCountriesUsingCurrency_shape [of sampleAliases sampleData "Str ''EUR''"]
    by blast
qed

section \<open>Name search\<close>

lemma map_of_keys:
  assumes "distinct (map fst al)"
  shows "map (map_of al) (map fst al) = map (\<lambda>p. Some (snd p)) al"
  using assms
proof (induction al)
  case Nil
  then show ?case by simp
next
  case (Cons p al)
  have "map (map_of (p # al)) (map fst al) = map (map_of al) (map fst al)"
  proof (rule map_cong [OF refl])
    fix k assume "k \<in> set (map fst al)"
    then have "k \<noteq> fst p" using Cons.prems by (auto simp: image_iff)
    then show "map_of (p # al) k = map_of al k" by (cases p) simp
  qed
  then show ?case using Cons by (cases p) simp
qed

lemma buildIndices_entries_by_haystack:
  "map (\<lambda>p. map_of (codeToCurrency (buildIndices al ds)) (fst p)) (nameHaystackByCode (buildIndices al ds)) =
   map Some (getAllCurrencyEntries (buildIndices al ds))"
proof -
  have "map (\<lambda>p. map_of (codeToCurrency (buildIndices al ds)) (fst p)) (nameHaystackByCode (buildIndices al ds)) =
        map (map_of (codeToCurrency (buildIndices al ds))) (map fst (nameHaystackByCode (buildIndices al ds)))"
    by simp
  also have "\<dots> = map (\<lambda>p. Some (snd p)) (codeToCurrency (buildIndices al ds))"
    unfolding buildIndices_keys_sync by (rule map_of_keys [OF buildIndices_distinct_keys])
  finally show ?thesis by (simp add: getAllCurrencyEntries_def)
qed

lemma update_fresh: "k \<notin> fst ` set al \<Longrightarrow> AList.update k v al = al @ [(k, v)]"
  by (induction al) auto

lemma buildIndices_distinct_codes:
  assumes "distinct (map codeOf ds)"
  shows "codeToCurrency (buildIndices al ds) = map (\<lambda>e. (codeOf e, normalized e)) ds"
proof -
  have "codeToCurrency (fold (indexEntry al) ds emptyIndices) = map (\<lambda>e. (codeOf e, normalized e)) ds"
    using assms
  proof (induction ds rule: rev_induct)
    case Nil
    then show ?case by (simp add: emptyIndices_def)
  next
    case (snoc e ds)
    then have "codeOf e \<notin> fst ` set (map (\<lambda>e. (codeOf e, normalized e)) ds)" by (auto simp: image_iff)
    then show ?case using snoc by (simp add: codeToCurrency_indexEntry update_fresh)
  qed
  then show ?thesis by (simp add: buildIndices_def)
qed

lemma includesStr_Nil: "includesStr h []"
  by (cases h) simp_all

lemma findLoop_empty_query:
  "findLoop ix [] hay results = results @ map (\<lambda>p. map_of (codeToCurrency ix) (fst p)) hay"
  by (induction hay arbitrary: results) (auto simp: includesStr_Nil)

lemma trim_whitespace:
  assumes "list_all isWhiteSpace s"
  shows "trim s = []"
proof -
  have d: "dropWhile isWhiteSpace s = []" using assms by (simp add: list_all_iff)
  show ?thesis unfolding trim_def d by simp
qed

text \<open>
  Claim C10. A query that is not empty but holds white space only passes the guard of
  \<open>findCurrenciesByName\<close>, is trimmed to the empty string, which every haystack contains,
  and so every record of the index is returned, in index order; when the currency codes
  of the dataset are distinct that is every record of the dataset.
\<close>

theorem findCurrenciesByName_whitespace_only:
  assumes "s \<noteq> []" and "list_all isWhiteSpace s"
  shows "findCurrenciesByName (buildIndices al ds) (Str s) = map Some (getAllCurrencyEntries (buildIndices al ds))
       \<and> (distinct (map codeOf ds) \<longrightarrow>
            findCurrenciesByName (buildIndices al ds) (Str s) = map (\<lambda>e. Some (normalized e)) ds)"
proof -
  have q: "toLowerCase (trim s) = []" using assms(2) by (simp add: trim_whitespace toLowerCase_def)
  have 1: "findCurrenciesByName (buildIndices al ds) (Str s) = map Some (getAllCurrencyEntries (buildIndices al ds))"
    using assms(1) by (simp add: findCurrenciesByName_def q findLoop_empty_query buildIndices_entries_by_haystack)
  have "distinct (map codeOf ds) \<Longrightarrow> map Some (getAllCurrencyEntries (buildIndices al ds)) = map (\<lambda>e. Some (normalized e)) ds"
    by (simp add: getAllCurrencyEntries_def buildIndices_distinct_codes comp_def)
  then show ?thesis using 1 by simp
qed

theorem findCurrenciesByName_whitespace_only_witness:
  "findCurrenciesByName (buildIndices sampleAliases sampleData) (Str ''  '') = map (\<lambda>e. Some (normalized e)) sampleData
   \<and> length (findCurrenciesByName (buildIndices sampleAliases sampleData) (Str ''  '')) = 3
   \<and> findCurrenciesByName (buildIndices sampleAliases sampleData) (Str []) = []"
proof -
  have a: "''  '' \<noteq> []" by simp
  have b: "list_all isWhiteSpace ''  ''" by code_simp
  have d: "distinct (map codeOf sampleData)" by code_simp
  have l: "length (map (\<lambda>e. Some (normalized e)) sampleData) = 3" by code_simp
  have e: "findCurrenciesByName (buildIndices sampleAliases sampleData) (Str []) = []" by code_simp
  have eq: "findCurrenciesByName (buildIndices sampleAliases sampleData) (Str ''  '') =
      map (\<lambda>e. Some (normalized e)) sampleData"
    using findCurrenciesByName_whitespace_only [OF a b, of sampleAliases sampleData] d by blast
  have "length (findCurrenciesByName (buildIndices sampleAliases sampleData) (Str ''  '')) = 3"
    unfolding eq by (rule l)
  then show ?thesis using eq e by blast
qed

lemma exactNameMatch_iff:
  "exactNameMatch al (trim s) r \<longleftrightarrow>
     toLowerCase (trim s) \<in> set (map toLowerCase (currencyName r # aliasesOf al (currencyCode r)))"
proof -
  have "exactNameMatch al (trim s) r \<longleftrightarrow>
        (\<exists>n\<in>set (currencyName r # aliasesOf al (currencyCode r)). toLowerCase n = toLowerCase (trim s))"
    by (simp add: exactNameMatch_def equalsIgnoreCase_def list_ex_iff)
  also have "\<dots> \<longleftrightarrow> toLowerCase (trim s) \<in> toLowerCase ` set (currencyName r # aliasesOf al (currencyCode r))"
    unfolding image_iff by metis
  finally show ?thesis by simp
qed

lemma exactLoop_aligned:
  assumes "list_all2 (\<lambda>p r. map_of (codeToCurrency ix) (fst p) = Some r \<and> currencyCode r = fst p) hay rs"
  shows "exactLoop al ix (toLowerCase (trim s)) hay results = Inr (results @ filter (exactNameMatch al (trim s)) rs)"
  using assms
proof (induction hay rs arbitrary: results rule: list_all2_induct)
  case Nil
  then show ?case by simp
next
  case (Cons p hay r rs)
  obtain code h where p: "p = (code, h)" by (cases p)
  have r: "map_of (codeToCurrency ix) code = Some r" "currencyCode r = code" using Cons.hyps(1) p by simp_all
  show ?case
    unfolding p using Cons.IH r exactNameMatch_iff [of al s r]
    by (simp add: Let_def)
qed

lemma buildIndices_aligned:
  "list_all2 (\<lambda>p r. map_of (codeToCurrency (buildIndices al ds)) (fst p) = Some r \<and> currencyCode r = fst p)
     (nameHaystackByCode (buildIndices al ds)) (getAllCurrencyEntries (buildIndices al ds))"
proof -
  let ?ix = "buildIndices al ds"
  have len: "length (nameHaystackByCode ?ix) = length (codeToCurrency ?ix)"
    using buildIndices_keys_sync [of al ds] by (metis length_map)
  have "map_of (codeToCurrency ?ix) (fst (nameHaystackByCode ?ix ! i)) = Some (snd (codeToCurrency ?ix ! i))
        \<and> currencyCode (snd (codeToCurrency ?ix ! i)) = fst (nameHaystackByCode ?ix ! i)"
    if i: "i < length (codeToCurrency ?ix)" for i
  proof -
    have "fst (nameHaystackByCode ?ix ! i) = map fst (nameHaystackByCode ?ix) ! i"
      using i len by simp
    also have "\<dots> = fst (codeToCurrency ?ix ! i)"
      unfolding buildIndices_keys_sync using i by simp
    finally have k: "fst (nameHaystackByCode ?ix ! i) = fst (codeToCurrency ?ix ! i)" .
    have mem: "(fst (codeToCurrency ?ix ! i), snd (codeToCurrency ?ix ! i)) \<in> set (codeToCurrency ?ix)"
      using i by simp
    have "map_of (codeToCurrency ?ix) (fst (codeToCurrency ?ix ! i)) = Some (snd (codeToCurrency ?ix ! i))"
      using mem buildIndices_distinct_keys [of al ds] by simp
    moreover have "currencyCode (snd (codeToCurrency ?ix ! i)) = fst (codeToCurrency ?ix ! i)"
      using buildIndices_entry_code [OF mem] .
    ultimately show ?thesis using k by simp
  qed
  then show ?thesis
    using len by (simp add: list_all2_conv_all_nth getAllCurrencyEntries_def)
qed

text \<open>
  Claim C7. For a query that is not empty, \<open>getCurrenciesByExactName\<close> returns, in index
  order, exactly the records whose canonical name or one of whose aliases equals the
  trimmed query when case is ignored; a record whose name only contains the query is
  not among them.
\<close>

theorem getCurrenciesByExactName_exact:
  assumes "s \<noteq> []"
  shows "getCurrenciesByExactName al (buildIndices al ds) (Str s) =
           Inr (filter (exactNameMatch al (trim s)) (getAllCurrencyEntries (buildIndices al ds)))"
proof -
  have "exactLoop al (buildIndices al ds) (toLowerCase (trim s)) (nameHaystackByCode (buildIndices al ds)) [] =
        Inr ([] @ filter (exactNameMatch al (trim s)) (getAllCurrencyEntries (buildIndices al ds)))"
    by (rule exactLoop_aligned [OF buildIndices_aligned])
  then show ?thesis using assms by (simp add: getCurrenciesByExactName_def)
qed

theorem getCurrenciesByExactName_exact_witness:
  "getCurrenciesByExactName sampleAliases (buildIndices sampleAliases sampleData) (Str '' dollar '') =
     Inr [normalized (sampleData ! 0)]
   \<and> \<not> exactNameMatch sampleAliases (trim '' dollar '') (normalized (sampleData ! 2))
   \<and> includesStr (toLowerCase (currencyName (sampleData ! 2))) ''dollar''
   \<and> findCurrenciesByName (buildIndices sampleAliases sampleData) (Str '' dollar '') =
       [Some (normalized (sampleData ! 0)), Some (normalized (sampleData ! 2))]"
proof -
  have a: "'' dollar '' \<noteq> []" by simp
  have f: "filter (exactNameMatch sampleAliases (trim '' dollar '')) (getAllCurrencyEntries (buildIndices sampleAliases sampleData))
           = [normalized (sampleData ! 0)]"
    by code_simp
  have n: "\<not> exactNameMatch sampleAliases (trim '' dollar '') (normalized (sampleData ! 2))" by code_simp
  have i: "includesStr (toLowerCase (currencyName (sampleData ! 2))) ''dollar''" by code_simp
  have g: "findCurrenciesByName (buildIndices sampleAliases sampleData) (Str '' dollar '') =
       [Some (normalized (sampleData ! 0)), Some (normalized (sampleData ! 2))]" by code_simp
  show ?thesis
    using getCurrenciesByExactName_exact [OF a, of sampleAliases sampleData] n i g
    unfolding f by simp
qed

section \<open>The country index\<close>

lemma map_of_push:
  "map_of (push ccy c m) k =
     (if k = normalizeCountryCode (Str c)
      then Some (setAdd ccy (case map_of m k of None \<Rightarrow> [] | Some s \<Rightarrow> s))
      else map_of m k)"
  by (auto simp: push_def Let_def map_of_map_entry update_conv' split: option.splits)

lemma codesAt_push:
  "codesAt (push ccy c m) k = codesAt m k \<union> (if k = normalizeCountryCode (Str c) then {ccy} else {})"
  by (auto simp: codesAt_def map_of_push set_setAdd split: option.splits)

lemma codesAt_fold_push:
  "codesAt (fold (push ccy) cs m) k =
     codesAt m k \<union> (if k \<in> (\<lambda>c. normalizeCountryCode (Str c)) ` set cs then {ccy} else {})"
proof (induction cs arbitrary: m)
  case Nil
  then show ?case by simp
next
  case (Cons c cs)
  show ?case unfolding fold_simps Cons.IH codesAt_push by auto
qed

lemma countriesOf_normalized:
  "(\<lambda>c. normalizeCountryCode (Str c)) ` set (countriesOf e) = set (countriesOf e)"
proof -
  have "map (\<lambda>c. normalizeCountryCode (Str c)) (countriesOf e) = countriesOf e"
    by (simp add: countriesOf_def normalizeCountryCode_idem)
  then show ?thesis by (metis set_map)
qed

lemma codesAt_indexEntry:
  "codesAt (countryToCurrencyCodes (indexEntry al e ix)) k =
     codesAt (countryToCurrencyCodes ix) k \<union> (if k \<in> set (countriesOf e) then {codeOf e} else {})"
  by (simp only: countryToCurrencyCodes_indexEntry codesAt_fold_push countriesOf_normalized)

lemma codesAt_fold_indexEntry:
  "codesAt (countryToCurrencyCodes (fold (indexEntry al) ds ix)) k =
     codesAt (countryToCurrencyCodes ix) k \<union> {codeOf e | e. e \<in> set ds \<and> k \<in> set (countriesOf e)}"
proof (induction ds arbitrary: ix)
  case Nil
  then show ?case by simp
next
  case (Cons d ds)
  show ?case unfolding fold_simps Cons.IH codesAt_indexEntry by auto
qed

lemma codesAt_buildIndices:
  "codesAt (countryToCurrencyCodes (buildIndices al ds)) k =
     {codeOf e | e. e \<in> set ds \<and> k \<in> set (countriesOf e)}"
proof -
  have "codesAt (countryToCurrencyCodes emptyIndices) k = {}"
    by (simp add: emptyIndices_def codesAt_def)
  then show ?thesis unfolding buildIndices_def codesAt_fold_indexEntry by simp
qed

lemma countriesOf_normalized_record:
  "set (countriesOf e) = insert (primaryCountryCode (normalized e)) (set (otherCountryCodes (normalized e)))"
  by (simp add: countriesOf_def normalized_def)

text \<open>
  Claim C5. For a country code K that a dataset record names as its primary country or
  among its other countries, \<open>getCurrenciesByCountryCode(K)\<close> is not empty; and, the
  currency codes of the dataset being distinct as its data model says, every element of
  the list is a record that has the normalized K as its primary country or among its
  other countries.
\<close>

theorem getCurrenciesByCountryCode_sound:
  assumes "e \<in> set ds"
    and "K = primaryCountryCode e \<or> K \<in> set (otherCountryCodes e)"
  shows "getCurrenciesByCountryCode (buildIndices al ds) (Str K) \<noteq> []
       \<and> (distinct (map codeOf ds) \<longrightarrow>
           (\<forall>x\<in>set (getCurrenciesByCountryCode (buildIndices al ds) (Str K)).
              \<exists>r. x = Some r \<and> (primaryCountryCode r = normalizeCountryCode (Str K)
                               \<or> normalizeCountryCode (Str K) \<in> set (otherCountryCodes r))))"
proof -
  let ?ix = "buildIndices al ds"
  let ?key = "normalizeCountryCode (Str K)"
  have "?key \<in> set (countriesOf e)" using assms(2) by (auto simp: countriesOf_def)
  then have "codeOf e \<in> codesAt (countryToCurrencyCodes ?ix) ?key"
    using assms(1) by (auto simp: codesAt_buildIndices)
  then obtain s where s: "map_of (countryToCurrencyCodes ?ix) ?key = Some s" "s \<noteq> []"
    by (fastforce simp: codesAt_def split: option.splits)
  have res: "getCurrenciesByCountryCode ?ix (Str K) = map (\<lambda>ccy. map_of (codeToCurrency ?ix) ccy) s"
    using s(1) by (simp add: getCurrenciesByCountryCode_def)
  have "\<exists>r. x = Some r \<and> (primaryCountryCode r = ?key \<or> ?key \<in> set (otherCountryCodes r))"
    if d: "distinct (map codeOf ds)" and x: "x \<in> set (getCurrenciesByCountryCode ?ix (Str K))" for x
  proof -
    from x res obtain ccy where ccy: "ccy \<in> set s" "x = map_of (codeToCurrency ?ix) ccy" by auto
    have "ccy \<in> codesAt (countryToCurrencyCodes ?ix) ?key" using ccy(1) s(1) by (simp add: codesAt_def)
    then obtain e' where e': "e' \<in> set ds" "ccy = codeOf e'" "?key \<in> set (countriesOf e')"
      by (auto simp: codesAt_buildIndices)
    have "x = Some (normalized e')"
      using ccy(2) e'(2) buildIndices_lookup_distinct [OF d e'(1), of al] by simp
    moreover have "primaryCountryCode (normalized e') = ?key \<or> ?key \<in> set (otherCountryCodes (normalized e'))"
      using e'(3) unfolding countriesOf_normalized_record by auto
    ultimately show ?thesis by blast
  qed
  then show ?thesis using res s(2) by simp
qed

theorem getCurrenciesByCountryCode_sound_witness:
  "getCurrenciesByCountryCode (buildIndices sampleAliases sampleData) (Str ''PR'') = [Some (normalized (sampleData ! 0))]
   \<and> (\<exists>r. hd (getCurrenciesByCountryCode (buildIndices sampleAliases sampleData) (Str ''PR'')) = Some r
          \<and> (primaryCountryCode r = ''PR'' \<or> ''PR'' \<in> set (otherCountryCodes r)))"
proof -
  let ?res = "getCurrenciesByCountryCode (buildIndices sampleAliases sampleData) (Str ''PR'')"
  have m: "sampleData ! 0 \<in> set sampleData" by (simp add: sampleData_def)
  have k: "''PR'' = primaryCountryCode (sampleData ! 0) \<or> ''PR'' \<in> set (otherCountryCodes (sampleData ! 0))"
    by code_simp
  have d: "distinct (map codeOf sampleData)" by code_simp
  have n: "normalizeCountryCode (Str ''PR'') = ''PR''" by code_simp
  have v: "?res = [Some (normalized (sampleData ! 0))]"
    by code_simp
  note inst = getCurrenciesByCountryCode_sound [OF m k, of sampleAliases]
  have ne: "?res \<noteq> []" using inst by simp
  then have h: "hd ?res \<in> set ?res" by (rule hd_in_set)
  have "\<forall>x\<in>set ?res. \<exists>r. x = Some r \<and> (primaryCountryCode r = ''PR'' \<or> ''PR'' \<in> set (otherCountryCodes r))"
    using inst d unfolding n by simp
  then have "\<exists>r. hd ?res = Some r \<and> (primaryCountryCode r = ''PR'' \<or> ''PR'' \<in> set (otherCountryCodes r))"
    using h by (rule bspec)
  then show ?thesis using v by simp
qed

text \<open>
  The index builder does not check that currency codes are distinct. With a code that
  occurs twice the later record replaces the earlier one in \<open>codeToCurrency\<close>, while
  \<open>countryToCurrencyCodes\<close> keeps the association of both: the lookup for the first
  record's country is still not empty, but the record it returns names another country.
\<close>

lemma duplicate_codes_example:
  "getCurrenciesByCountryCode (buildIndices sampleAliases duplicateData) (Str ''US'') =
     [Some \<lparr>currencyCode = ''USD'', currencyName = ''Dollar'',
            primaryCountryCode = ''CA'', otherCountryCodes = []\<rparr>]"
  by code_simp

section \<open>The generation script\<close>

lemma set_insertSorted: "set (insertSorted x ys) = insert x (set ys)"
  by (induction ys) auto

lemma set_sortStrings: "set (sortStrings xs) = set xs"
  by (induction xs) (simp_all add: sortStrings_def set_insertSorted)

lemma mkRecords_total:
  assumes "\<forall>c\<in>set codes. map_of m c \<noteq> None"
  shows "\<exists>rs. mkRecords m codes records = Inr (records @ rs)
            \<and> (\<forall>r\<in>set rs. \<exists>c d. map_of m c = Some d \<and> r = mkRecord c d)"
  using assms
proof (induction codes arbitrary: records)
  case Nil
  then show ?case by simp
next
  case (Cons c codes)
  then obtain d where d: "map_of m c = Some d" by auto
  obtain rs where rs: "mkRecords m codes (records @ [mkRecord c d]) = Inr ((records @ [mkRecord c d]) @ rs)"
      "\<forall>r\<in>set rs. \<exists>c d. map_of m c = Some d \<and> r = mkRecord c d"
    using Cons.IH [of "records @ [mkRecord c d]"] Cons.prems by auto
  have "mkRecords m (c # codes) records = Inr (records @ (mkRecord c d # rs))"
    using d rs(1) by simp
  moreover have "\<forall>r\<in>set (mkRecord c d # rs). \<exists>c d. map_of m c = Some d \<and> r = mkRecord c d"
    using d rs(2) by auto
  ultimately show ?case by blast
qed

lemma mkRecord_primary_not_other:
  "primaryCountryCode (mkRecord code d) \<notin> set (otherCountryCodes (mkRecord code d))"
  by (simp add: mkRecord_def Let_def)

lemma overrides_normalized:
  assumes "PRIMARY_OVERRIDES code = Some p"
  shows "normalizeCountryCode (Str p) = p"
proof -
  define tbl where "tbl =
     [(''EUR'', ''EU''), (''USD'', ''US''), (''GBP'', ''GB''), (''AUD'', ''AU''), (''CAD'', ''CA''),
      (''CHF'', ''CH''), (''JPY'', ''JP''), (''CNY'', ''CN''), (''HKD'', ''HK''), (''SGD'', ''SG''),
      (''XAF'', ''CM''), (''XOF'', ''SN''), (''XCD'', ''AG'')]"
  have "list_all (\<lambda>kp. normalizeCountryCode (Str (snd kp)) = snd kp) tbl"
    unfolding tbl_def by code_simp
  then have all: "\<forall>kp\<in>set tbl. normalizeCountryCode (Str (snd kp)) = snd kp"
    by (simp only: list_all_iff)
  have "map_of tbl code = Some p"
    using assms unfolding PRIMARY_OVERRIDES_def tbl_def .
  then have "(code, p) \<in> set tbl" by (rule map_of_SomeD)
  with all have "normalizeCountryCode (Str (snd (code, p))) = snd (code, p)" by (rule bspec)
  then show ?thesis by (simp only: snd_conv)
qed

lemma XX_normalized: "normalizeCountryCode (Str ''XX'') = ''XX''"
  by code_simp

lemma mkRecord_normalized:
  assumes "\<forall>c\<in>set (countryCodes d). normalizeCountryCode (Str c) = c"
  shows "normalizeCountryCode (Str (primaryCountryCode (mkRecord code d))) = primaryCountryCode (mkRecord code d)"
    and "\<forall>c\<in>set (otherCountryCodes (mkRecord code d)). normalizeCountryCode (Str c) = c"
proof -
  have srt: "\<forall>c\<in>set (sortStrings (countryCodes d)). normalizeCountryCode (Str c) = c"
    using assms by (simp add: set_sortStrings)
  show "normalizeCountryCode (Str (primaryCountryCode (mkRecord code d))) = primaryCountryCode (mkRecord code d)"
  proof (cases "PRIMARY_OVERRIDES code")
    case (Some p)
    then show ?thesis using overrides_normalized [OF Some] by (simp add: mkRecord_def Let_def)
  next
    case None
    show ?thesis
    proof (cases "sortStrings (countryCodes d)")
      case Nil
      then show ?thesis using None XX_normalized by (simp add: mkRecord_def Let_def)
    next
      case (Cons c cs)
      then have "normalizeCountryCode (Str c) = c" using srt by simp
      then show ?thesis using None Cons XX_normalized by (simp add: mkRecord_def Let_def)
    qed
  qed
  show "\<forall>c\<in>set (otherCountryCodes (mkRecord code d)). normalizeCountryCode (Str c) = c"
    using srt by (simp add: mkRecord_def Let_def)
qed

text \<open>The code map keeps normalized country codes only.\<close>

lemma map_of_ensure:
  "map_of (ensure code m) k =
     (if k = code \<and> map_of m code = None then Some \<lparr>nameCandidates = [], countryCodes = []\<rparr> else map_of m k)"
  by (simp add: ensure_def update_conv')

lemma ensure_present: "map_of (ensure code m) code \<noteq> None"
  by (simp add: map_of_ensure)

lemma ensure_keeps: "map_of m k \<noteq> None \<Longrightarrow> map_of (ensure code m) k \<noteq> None"
  by (simp add: map_of_ensure)

lemma map_entry_keeps: "map_of (AList.map_entry code f m) k \<noteq> None \<longleftrightarrow> map_of m k \<noteq> None"
  by (simp add: map_of_map_entry split: option.splits)

lemma codesNormalized_ensure: "codesNormalized m \<Longrightarrow> codesNormalized (ensure code m)"
  by (auto simp: codesNormalized_def map_of_ensure split: if_splits)

lemma codesNormalized_addName:
  "codesNormalized m \<Longrightarrow> codesNormalized (AList.map_entry code (addName n) m)"
  by (auto simp: codesNormalized_def map_of_map_entry addName_def split: if_splits option.splits)

lemma codesNormalized_addCountryCode:
  "codesNormalized m \<Longrightarrow> normalizeCountryCode (Str cc) = cc \<Longrightarrow>
   codesNormalized (AList.map_entry code (addCountryCode cc) m)"
  by (auto simp: codesNormalized_def map_of_map_entry addCountryCode_def set_setAdd
           split: if_splits option.splits)

lemma codesNormalized_countryCurrencyStep:
  assumes "codesNormalized m" and "normalizeCountryCode (Str cca2n) = cca2n"
  shows "codesNormalized (countryCurrencyStep cca2n cd m)"
  using assms
  by (simp add: countryCurrencyStep_def Let_def codesNormalized_ensure codesNormalized_addName
      codesNormalized_addCountryCode)

lemma codesNormalized_countryStep:
  assumes "codesNormalized m"
  shows "codesNormalized (countryStep c m)"
proof -
  have n: "normalizeCountryCode (Str (normalizeCode (cca2 c))) = normalizeCode (cca2 c)"
    by (simp add: normalizeCode_eq normalizeCountryCode_idem)
  have "codesNormalized (fold (countryCurrencyStep (normalizeCode (cca2 c))) cds m)" for cds
    using assms by (induction cds arbitrary: m) (simp_all add: codesNormalized_countryCurrencyStep n)
  then show ?thesis by (simp add: countryStep_def Let_def)
qed

lemma codesNormalized_nameStep: "codesNormalized m \<Longrightarrow> codesNormalized (nameStep cn m)"
  by (simp add: nameStep_def Let_def codesNormalized_ensure codesNormalized_addName)

lemma codesNormalized_extraStep: "codesNormalized m \<Longrightarrow> codesNormalized (extraStep cn m)"
  by (simp add: extraStep_def Let_def codesNormalized_ensure codesNormalized_addName)

lemma codesNormalized_fold:
  assumes "\<And>x m. codesNormalized m \<Longrightarrow> codesNormalized (f x m)" and "codesNormalized m"
  shows "codesNormalized (fold f xs m)"
  using assms(2) by (induction xs arbitrary: m) (simp_all add: assms(1))

lemma codesNormalized_Nil: "codesNormalized []"
  by (simp add: codesNormalized_def)

lemma buildRecords_invariant:
  "\<exists>rs. buildRecords countries codeToName = Inr rs
      \<and> (\<forall>r\<in>set rs. primaryCountryCode r \<notin> set (otherCountryCodes r)
                   \<and> normalizeCountryCode (Str (primaryCountryCode r)) = primaryCountryCode r
                   \<and> (\<forall>c\<in>set (otherCountryCodes r). normalizeCountryCode (Str c) = c))"
proof -
  define m3 where "m3 = fold extraStep EXTRA_CODES (fold nameStep codeToName (fold countryStep countries []))"
  have norm: "codesNormalized m3"
    unfolding m3_def
    by (intro codesNormalized_fold codesNormalized_extraStep codesNormalized_nameStep
        codesNormalized_countryStep codesNormalized_Nil)
  have keys: "\<forall>c\<in>set (sortStrings (map fst m3)). map_of m3 c \<noteq> None"
    by (auto simp: set_sortStrings map_of_eq_None_iff)
  obtain rs where rs: "mkRecords m3 (sortStrings (map fst m3)) [] = Inr ([] @ rs)"
      "\<forall>r\<in>set rs. \<exists>c d. map_of m3 c = Some d \<and> r = mkRecord c d"
    using mkRecords_total [OF keys, of "[]"] by auto
  have b: "buildRecords countries codeToName = Inr rs"
    using rs(1) by (simp add: buildRecords_def Let_def m3_def)
  have "primaryCountryCode r \<notin> set (otherCountryCodes r)
        \<and> normalizeCountryCode (Str (primaryCountryCode r)) = primaryCountryCode r
        \<and> (\<forall>c\<in>set (otherCountryCodes r). normalizeCountryCode (Str c) = c)" if mem: "r \<in> set rs" for r
  proof -
    obtain c d where cd: "map_of m3 c = Some d" "r = mkRecord c d" using bspec [OF rs(2) mem] by auto
    have dn: "\<forall>x\<in>set (countryCodes d). normalizeCountryCode (Str x) = x"
      using norm cd(1) unfolding codesNormalized_def by auto
    show ?thesis
      unfolding cd(2)
      using mkRecord_primary_not_other [of c d] mkRecord_normalized [OF dn, of c] by simp
  qed
  then have "\<forall>r\<in>set rs. primaryCountryCode r \<notin> set (otherCountryCodes r)
                   \<and> normalizeCountryCode (Str (primaryCountryCode r)) = primaryCountryCode r
                   \<and> (\<forall>c\<in>set (otherCountryCodes r). normalizeCountryCode (Str c) = c)"
    by (rule ballI)
  with b show ?thesis by (intro exI [of _ rs] conjI)
qed

lemma normalized_fixed:
  assumes "normalizeCountryCode (Str (primaryCountryCode r)) = primaryCountryCode r"
    and "\<forall>c\<in>set (otherCountryCodes r). normalizeCountryCode (Str c) = c"
  shows "primaryCountryCode (normalized r) = primaryCountryCode r"
    and "otherCountryCodes (normalized r) = otherCountryCodes r"
  using assms by (simp_all add: normalized_def map_idI)

text \<open>
  In memory the invariant holds: \<open>build\<close> always gets to its list \<open>records\<close>, and in
  every record of the list the primary country code is not among the other country
  codes. The index builder keeps the invariant of a dataset whose country codes are
  normalized already, as those of \<open>records\<close> are.
\<close>

lemma buildRecords_primary_not_in_others:
  "\<exists>rs. buildRecords countries codeToName = Inr rs
      \<and> (\<forall>r\<in>set rs. primaryCountryCode r \<notin> set (otherCountryCodes r))"
proof -
  obtain rs where rs: "buildRecords countries codeToName = Inr rs"
      "\<forall>r\<in>set rs. primaryCountryCode r \<notin> set (otherCountryCodes r)
                   \<and> normalizeCountryCode (Str (primaryCountryCode r)) = primaryCountryCode r
                   \<and> (\<forall>c\<in>set (otherCountryCodes r). normalizeCountryCode (Str c) = c)"
    using buildRecords_invariant [of countries codeToName] by auto
  have "\<forall>r\<in>set rs. primaryCountryCode r \<notin> set (otherCountryCodes r)"
    using rs(2) by simp
  then show ?thesis using rs(1) by (intro exI [of _ rs] conjI)
qed

lemma buildIndices_primary_not_in_others:
  assumes "\<forall>e\<in>set ds. primaryCountryCode e \<notin> set (otherCountryCodes e)
                   \<and> normalizeCountryCode (Str (primaryCountryCode e)) = primaryCountryCode e
                   \<and> (\<forall>c\<in>set (otherCountryCodes e). normalizeCountryCode (Str c) = c)"
    and "r \<in> set (getAllCurrencyEntries (buildIndices al ds))"
  shows "primaryCountryCode r \<notin> set (otherCountryCodes r)"
proof -
  from assms(2) obtain k where "(k, r) \<in> set (codeToCurrency (buildIndices al ds))"
    by (auto simp: getAllCurrencyEntries_def)
  then obtain e where e: "e \<in> set ds" "r = normalized e"
    using buildIndices_entry [of k r al ds] by auto
  show ?thesis
    unfolding e(2) using assms(1) e(1) normalized_fixed [of e] by simp
qed


end
